theory Spec2Isabelle
  imports Main "HOL-Library.Multiset" "HOL-Library.List_Lexorder"
begin

section \<open>Data model of the music player page\<close>

text \<open>
  The page component \<open>MusicPlayerPage\<close> of \<open>src/pages/Index.tsx\<close> (the revision with
  playlists and a play queue) keeps its whole logical state in React \<open>useState\<close> cells.
  A JavaScript \<open>number\<close> used as an index is an \<open>int\<close>; \<open>number | null\<close> is an
  \<open>int option\<close>. The cells \<open>progress\<close>, \<open>duration\<close> and \<open>currentTime\<close> are floating point
  readings of the audio element, no handler below reads them, and they are left out.
\<close>

record Track =
  track_name :: string
  track_url :: string

record Playlist =
  playlist_name :: string
  tracks :: "Track list"

record QueuedTrack =
  playlistIndex :: int
  trackIndex :: int

record state =
  playlists :: "Playlist list"
  queue :: "QueuedTrack list"
  currentPlaylistIndex :: "int option"
  currentTrackIndex :: "int option"
  isPlaying :: bool
  isLoading :: bool

text \<open>The initial values of the \<open>useState\<close> cells.\<close>

definition initial :: state where
  "initial = \<lparr>playlists = [], queue = [], currentPlaylistIndex = None,
     currentTrackIndex = None, isPlaying = False, isLoading = False\<rparr>"

text \<open>
  Reading a JavaScript array at an index: \<open>xs[i]\<close> is \<open>undefined\<close> (here \<open>None\<close>) outside
  \<open>0 .. length - 1\<close>.
\<close>

definition js_index :: "'a list \<Rightarrow> int \<Rightarrow> 'a option" where
  "js_index xs i = (if 0 \<le> i \<and> i < int (length xs) then Some (xs ! nat i) else None)"

text \<open>
  \<open>const currentPlaylist = currentPlaylistIndex !== null ? playlists[currentPlaylistIndex] : null\<close>
  and
  \<open>const currentTrack = currentPlaylist && currentTrackIndex !== null
     ? currentPlaylist.tracks[currentTrackIndex] : null\<close>.
  Both \<open>null\<close> and \<open>undefined\<close> are \<open>None\<close>: the code only tests these values for truthiness,
  and an object is truthy.
\<close>

definition currentPlaylist :: "state \<Rightarrow> Playlist option" where
  "currentPlaylist s =
     (case currentPlaylistIndex s of None \<Rightarrow> None | Some i \<Rightarrow> js_index (playlists s) i)"

definition currentTrack :: "state \<Rightarrow> Track option" where
  "currentTrack s =
     (case currentPlaylist s of
        None \<Rightarrow> None
      | Some cp \<Rightarrow>
          (case currentTrackIndex s of None \<Rightarrow> None | Some t \<Rightarrow> js_index (tracks cp) t))"

section \<open>Navigation handlers\<close>

text \<open>
  The updater functions handed to \<open>setCurrentTrackIndex\<close> by \<open>playNext\<close> and
  \<open>playPrevious\<close>; \<open>n\<close> is \<open>currentPlaylist.tracks.length\<close>.
\<close>

definition nextIndex :: "int \<Rightarrow> int option \<Rightarrow> int" where
  "nextIndex n prevIndex =
     (case prevIndex of
        None \<Rightarrow> 0
      | Some i \<Rightarrow> if i = n - 1 then 0 else i + 1)"

definition previousIndex :: "int \<Rightarrow> int option \<Rightarrow> int" where
  "previousIndex n prevIndex =
     (case prevIndex of
        None \<Rightarrow> n - 1
      | Some i \<Rightarrow> if i = 0 then n - 1 else i - 1)"

text \<open>
  \<open>playNext\<close>: with a non-empty queue it takes \<open>queue[0]\<close>, keeps \<open>q.slice(1)\<close>, selects the
  entry and returns; otherwise it returns at once when there is no current playlist, and
  else moves the track index by the wrap-around updater. Each handler is one transition
  on the state of the render it was created in.
\<close>

definition playNext :: "state \<Rightarrow> state" where
  "playNext s =
     (if length (queue s) > 0 then
        (let nextInQueue = queue s ! 0 in
         s\<lparr>queue := drop 1 (queue s),
           currentPlaylistIndex := Some (playlistIndex nextInQueue),
           currentTrackIndex := Some (trackIndex nextInQueue),
           isPlaying := True\<rparr>)
      else
        (case currentPlaylist s of
           None \<Rightarrow> s
         | Some cp \<Rightarrow>
             s\<lparr>currentTrackIndex :=
                 Some (nextIndex (int (length (tracks cp))) (currentTrackIndex s)),
               isPlaying := True\<rparr>))"

definition playPrevious :: "state \<Rightarrow> state" where
  "playPrevious s =
     (case currentPlaylist s of
        None \<Rightarrow> s
      | Some cp \<Rightarrow>
          s\<lparr>currentTrackIndex :=
              Some (previousIndex (int (length (tracks cp))) (currentTrackIndex s)),
            isPlaying := True\<rparr>)"

text \<open>
  The two places that call \<open>playNext\<close>: the listener of the audio element's \<open>ended\<close>
  event (\<open>const handleEnded = () => playNext()\<close>) and the skip-forward button
  (\<open>onClick={playNext}\<close>).
\<close>

definition handleEnded :: "state \<Rightarrow> state" where
  "handleEnded s = playNext s"

definition skipForward_onClick :: "state \<Rightarrow> state" where
  "skipForward_onClick s = playNext s"

definition skipBack_onClick :: "state \<Rightarrow> state" where
  "skipBack_onClick s = playPrevious s"

text \<open>
  \<open>playNext\<close> of the revision of the page that has playlists but no queue yet (the
  second source file). Its state cells are those of \<open>state\<close> without \<open>queue\<close>, which it
  neither reads nor writes.
\<close>

definition playNext_part_000 :: "state \<Rightarrow> state" where
  "playNext_part_000 s =
     (case currentPlaylist s of
        None \<Rightarrow> s
      | Some cp \<Rightarrow>
          s\<lparr>currentTrackIndex :=
              Some (nextIndex (int (length (tracks cp))) (currentTrackIndex s)),
            isPlaying := True\<rparr>)"

definition togglePlayPause :: "state \<Rightarrow> state" where
  "togglePlayPause s =
     (if currentTrackIndex s = None then s else s\<lparr>isPlaying := \<not> isPlaying s\<rparr>)"

definition selectTrack :: "state \<Rightarrow> int \<Rightarrow> state" where
  "selectTrack s index = s\<lparr>currentTrackIndex := Some index, isPlaying := True\<rparr>"

text \<open>
  \<open>handlePlaylistChange(indexStr)\<close>. The argument here is the number
  \<open>parseInt(indexStr, 10)\<close>; the strings the playlist selector sends are
  \<open>index.toString()\<close> of its items. The handler compares the number with the current
  playlist index and does nothing else with it: there is no test against
  \<open>playlists.length\<close> and nothing is returned or reported.
\<close>

definition handlePlaylistChange :: "state \<Rightarrow> int \<Rightarrow> state" where
  "handlePlaylistChange s index =
     (if Some index \<noteq> currentPlaylistIndex s then
        s\<lparr>currentPlaylistIndex := Some index,
          currentTrackIndex := Some 0,
          isPlaying := True\<rparr>
      else s)"

section \<open>The queue\<close>

text \<open>
  What a handler makes visible besides the state: a success toast, a message on the
  console, or an uncaught \<open>TypeError\<close>.
\<close>

datatype notice = Toast string | ConsoleError | TypeError

text \<open>
  \<open>addToQueue\<close> first appends the entry (\<open>setQueue(q => [...q, {playlistIndex,
  trackIndex}])\<close>) and then reads \<open>playlists[playlistIndex].tracks[trackIndex].name\<close> for
  the toast; on an index that does not resolve, that read throws after the update has
  been handed to React.
\<close>

definition addToQueue :: "state \<Rightarrow> int \<Rightarrow> int \<Rightarrow> state \<times> notice" where
  "addToQueue s p t =
     (let s' = s\<lparr>queue := queue s @ [\<lparr>playlistIndex = p, trackIndex = t\<rparr>]\<rparr> in
      case js_index (playlists s) p of
        None \<Rightarrow> (s', TypeError)
      | Some pl \<Rightarrow>
          (case js_index (tracks pl) t of
             None \<Rightarrow> (s', TypeError)
           | Some tr \<Rightarrow>
               (s', Toast ([CHR 0x27] @ track_name tr @ [CHR 0x27] @ '' added to queue''))))"

text \<open>\<open>removeFromQueue\<close>: \<open>q.filter((_, index) => index !== queueIndex)\<close>.\<close>

definition removeFromQueue :: "state \<Rightarrow> int \<Rightarrow> state" where
  "removeFromQueue s queueIndex =
     s\<lparr>queue := map snd (filter (\<lambda>(index, _). int index \<noteq> queueIndex)
                              (enumerate 0 (queue s)))\<rparr>"

section \<open>Uploading an archive\<close>

text \<open>
  What \<open>handleFileUpload\<close> sees of the chosen file: its name and, when
  \<open>JSZip.loadAsync\<close> resolves, the entries of \<open>zip.files\<close>. For each entry: its key, its
  \<open>dir\<close> flag, and the object URL made from its blob (\<open>None\<close> when
  \<open>zipEntry.async('blob')\<close> rejects). The entries are listed in the order in which their
  callbacks reach \<open>audioFiles.push\<close>.
\<close>

record ZipEntry =
  filename :: string
  dir :: bool
  blob_url :: "string option"

record File =
  file_name :: string
  zip_files :: "ZipEntry list option"

text \<open>\<open>toLowerCase\<close> and \<open>endsWith\<close> on strings of ASCII characters.\<close>

definition toLowerCase_char :: "char \<Rightarrow> char" where
  "toLowerCase_char c =
     (let n = (of_char c :: nat) in if 65 \<le> n \<and> n \<le> 90 then char_of (n + 32) else c)"

definition toLowerCase :: "string \<Rightarrow> string" where
  "toLowerCase s = map toLowerCase_char s"

definition endsWith :: "string \<Rightarrow> string \<Rightarrow> bool" where
  "endsWith s ext = (length ext \<le> length s \<and> drop (length s - length ext) s = ext)"

definition audioExtensions :: "string list" where
  "audioExtensions = [''.mp3'', ''.wav'', ''.ogg'', ''.m4a'', ''.flac'']"

text \<open>
  The test \<open>!zipEntry.dir && audioExtensions.some(ext =>
  filename.toLowerCase().endsWith(ext))\<close>.
\<close>

definition isAudio :: "ZipEntry \<Rightarrow> bool" where
  "isAudio e =
     (\<not> dir e \<and> list_ex (\<lambda>ext. endsWith (toLowerCase (filename e)) ext) audioExtensions)"

text \<open>\<open>filename.split('/').pop() || filename\<close>: the empty string is falsy.\<close>

definition trackName :: "string \<Rightarrow> string" where
  "trackName fn =
     (let seg = rev (takeWhile (\<lambda>c. c \<noteq> CHR ''/'') (rev fn)) in
      if seg = [] then fn else seg)"

text \<open>
  The array \<open>audioFiles\<close> after \<open>await Promise.all(promises)\<close>, or \<open>None\<close> when one of the
  promises rejects.
\<close>

fun collectAudioFiles :: "ZipEntry list \<Rightarrow> Track list option" where
  "collectAudioFiles [] = Some []"
| "collectAudioFiles (e # es) =
     (if isAudio e then
        (case blob_url e of
           None \<Rightarrow> None
         | Some url \<Rightarrow>
             (case collectAudioFiles es of
                None \<Rightarrow> None
              | Some rest \<Rightarrow> Some (\<lparr>track_name = trackName (filename e), track_url = url\<rparr> # rest)))
      else collectAudioFiles es)"

text \<open>
  \<open>Array.prototype.sort(compareFn)\<close>. The language fixes the result for a consistent
  comparator: the sort is stable, so the result is the one sorted arrangement that keeps
  elements comparing equal in their order. It is written here as an insertion sort that
  puts an element in front of the first one it does not come after.
\<close>

fun insert_by :: "('a \<Rightarrow> 'a \<Rightarrow> int) \<Rightarrow> 'a \<Rightarrow> 'a list \<Rightarrow> 'a list" where
  "insert_by compareFn x [] = [x]"
| "insert_by compareFn x (y # ys) =
     (if compareFn x y \<le> 0 then x # y # ys else y # insert_by compareFn x ys)"

definition array_sort :: "('a \<Rightarrow> 'a \<Rightarrow> int) \<Rightarrow> 'a list \<Rightarrow> 'a list" where
  "array_sort compareFn xs = foldr (insert_by compareFn) xs []"


text \<open>
  The comparator of the upload, \<open>(a, b) => a.name.localeCompare(b.name)\<close>.
  \<open>String.prototype.localeCompare\<close> belongs to the host and is a parameter of the model.
\<close>

definition byName :: "(string \<Rightarrow> string \<Rightarrow> int) \<Rightarrow> Track \<Rightarrow> Track \<Rightarrow> int" where
  "byName localeCompare a b = localeCompare (track_name a) (track_name b)"

text \<open>
  \<open>handleFileUpload\<close>, from the chosen file to the state after the handler's
  \<open>finally\<close> block. No file: return at once. A rejected promise: the \<open>catch\<close> block
  writes to the console. No audio entry: the \<open>if (audioFiles.length > 0)\<close> is skipped.
  Otherwise the new playlist is appended, and playlist 0, track 0 are selected when
  \<open>currentPlaylistIndex === null\<close>.
\<close>

definition handleFileUpload ::
  "(string \<Rightarrow> string \<Rightarrow> int) \<Rightarrow> state \<Rightarrow> File option \<Rightarrow> state \<times> notice list" where
  "handleFileUpload localeCompare s file =
     (case file of
        None \<Rightarrow> (s, [])
      | Some f \<Rightarrow>
          (case zip_files f of
             None \<Rightarrow> (s\<lparr>isLoading := False\<rparr>, [ConsoleError])
           | Some entries \<Rightarrow>
               (case collectAudioFiles entries of
                  None \<Rightarrow> (s\<lparr>isLoading := False\<rparr>, [ConsoleError])
                | Some audioFiles \<Rightarrow>
                    if length audioFiles > 0 then
                      (let newPlaylist =
                             \<lparr>playlist_name = file_name f,
                              tracks = array_sort (byName localeCompare) audioFiles\<rparr>;
                           updatedPlaylists = playlists s @ [newPlaylist]
                       in if currentPlaylistIndex s = None then
                            (s\<lparr>playlists := updatedPlaylists,
                               currentPlaylistIndex := Some 0,
                               currentTrackIndex := Some 0,
                               isLoading := False\<rparr>, [])
                          else (s\<lparr>playlists := updatedPlaylists, isLoading := False\<rparr>, []))
                    else (s\<lparr>isLoading := False\<rparr>, []))))"

section \<open>The controls the page renders\<close>

text \<open>
  The events a user or the audio element can raise, and for each the condition under
  which the page renders the control that raises it:
  the upload button is disabled while loading;
  the playlist selector exists when \<open>playlists.length > 1 && currentPlaylistIndex !== null\<close>
  and has one item per playlist;
  the three transport buttons exist when \<open>currentPlaylist && currentTrack\<close>;
  the track rows, each with its add-to-queue button, exist when \<open>currentPlaylist\<close>, one
  per track of it, the button calling \<open>addToQueue(currentPlaylistIndex!, index)\<close>;
  the queue rows with their remove buttons exist when \<open>currentPlaylist\<close>, one per entry;
  the \<open>ended\<close> listener is always attached.
  \<open>fire\<close> is \<open>None\<close> when the control is not there.
\<close>

datatype event =
    FileChosen "File option"
  | PlaylistChosen int
  | SkipBackClicked
  | PlayPauseClicked
  | SkipForwardClicked
  | TrackClicked int
  | AddToQueueClicked int
  | RemoveFromQueueClicked int
  | Ended

fun fire :: "(string \<Rightarrow> string \<Rightarrow> int) \<Rightarrow> event \<Rightarrow> state \<Rightarrow> state option" where
  "fire lc (FileChosen file) s =
     (if isLoading s then None else Some (fst (handleFileUpload lc s file)))"
| "fire lc (PlaylistChosen index) s =
     (if length (playlists s) > 1 \<and> currentPlaylistIndex s \<noteq> None
         \<and> 0 \<le> index \<and> index < int (length (playlists s))
      then Some (handlePlaylistChange s index) else None)"
| "fire lc SkipBackClicked s =
     (if currentPlaylist s \<noteq> None \<and> currentTrack s \<noteq> None
      then Some (skipBack_onClick s) else None)"
| "fire lc PlayPauseClicked s =
     (if currentPlaylist s \<noteq> None \<and> currentTrack s \<noteq> None
      then Some (togglePlayPause s) else None)"
| "fire lc SkipForwardClicked s =
     (if currentPlaylist s \<noteq> None \<and> currentTrack s \<noteq> None
      then Some (skipForward_onClick s) else None)"
| "fire lc (TrackClicked index) s =
     (case currentPlaylist s of
        None \<Rightarrow> None
      | Some cp \<Rightarrow>
          if 0 \<le> index \<and> index < int (length (tracks cp))
          then Some (selectTrack s index) else None)"
| "fire lc (AddToQueueClicked index) s =
     (case currentPlaylist s of
        None \<Rightarrow> None
      | Some cp \<Rightarrow>
          (case currentPlaylistIndex s of
             None \<Rightarrow> None
           | Some p \<Rightarrow>
               if 0 \<le> index \<and> index < int (length (tracks cp))
               then Some (fst (addToQueue s p index)) else None))"
| "fire lc (RemoveFromQueueClicked index) s =
     (if currentPlaylist s \<noteq> None \<and> 0 \<le> index \<and> index < int (length (queue s))
      then Some (removeFromQueue s index) else None)"
| "fire lc Ended s = Some (handleEnded s)"

text \<open>
  The condition on a selection: the playlist index and the track index are both absent
  or both present.
\<close>

definition selection_consistent :: "state \<Rightarrow> bool" where
  "selection_consistent s \<longleftrightarrow>
     (currentPlaylistIndex s = None \<longleftrightarrow> currentTrackIndex s = None)"

section \<open>The host's comparison of names\<close>

text \<open>
  \<open>a.name.localeCompare(b.name)\<close> is called without a locale and without options. On a
  host with the default (root) collation it compares in levels. First the characters are
  compared without regard to case, by their place in the collation order, which for the
  printable ASCII characters is: space, then
  \<open>_ - , ; : ! ? . ' " ( ) [ ] { } @ * / \ & # % ` ^ + < = > | ~ $\<close>, then the digits, then
  the letters; a proper prefix comes first. Strings equal on that level are compared by
  case, and at the first place where the cases differ the lower-case letter comes first.
  The result is \<open>-1\<close>, \<open>0\<close> or \<open>1\<close>. The table below holds the printable ASCII characters
  in that order; a character outside it is placed after the letters.
\<close>

definition collation_order :: "char list" where
  "collation_order =
     '' _-,;:!?.'' @ [CHR 0x27, CHR 0x22] @ ''()[]{}@*/'' @ [CHR 0x5C] @ ''&#%'' @ [CHR 0x60]
       @ ''^+<=>|~$'' @ ''0123456789'' @ ''abcdefghijklmnopqrstuvwxyz''"

fun place_in :: "char list \<Rightarrow> char \<Rightarrow> nat" where
  "place_in [] c = 0"
| "place_in (x # xs) c = (if x = c then 0 else Suc (place_in xs c))"

definition primary_key :: "string \<Rightarrow> nat list" where
  "primary_key s = map (\<lambda>c. place_in collation_order (toLowerCase_char c)) s"

definition case_key :: "string \<Rightarrow> nat list" where
  "case_key s =
     map (\<lambda>c. if 65 \<le> (of_char c :: nat) \<and> (of_char c :: nat) \<le> 90 then 1 else 0) s"

definition localeCompare_default :: "string \<Rightarrow> string \<Rightarrow> int" where
  "localeCompare_default a b =
     (if primary_key a < primary_key b then - 1
      else if primary_key b < primary_key a then 1
      else if case_key a < case_key b then - 1
      else if case_key b < case_key a then 1
      else 0)"

section \<open>Example data\<close>

definition three_tracks :: "Track list" where
  "three_tracks =
     [\<lparr>track_name = ''t1.mp3'', track_url = ''blob:1''\<rparr>,
      \<lparr>track_name = ''t2.mp3'', track_url = ''blob:2''\<rparr>,
      \<lparr>track_name = ''t3.mp3'', track_url = ''blob:3''\<rparr>]"

text \<open>One playlist of three tracks, its first track selected, nothing queued.\<close>

definition one_playlist :: state where
  "one_playlist =
     \<lparr>playlists = [\<lparr>playlist_name = ''A.zip'', tracks = three_tracks\<rparr>],
      queue = [], currentPlaylistIndex = Some 0, currentTrackIndex = Some 0,
      isPlaying = True, isLoading = False\<rparr>"

text \<open>
  The same with track 2 waiting in the queue, and with the last track selected while
  track 1 waits in the queue.
\<close>

definition one_queued :: state where
  "one_queued = one_playlist\<lparr>queue := [\<lparr>playlistIndex = 0, trackIndex = 2\<rparr>]\<rparr>"

definition last_track_queued :: state where
  "last_track_queued =
     one_playlist\<lparr>queue := [\<lparr>playlistIndex = 0, trackIndex = 1\<rparr>], currentTrackIndex := Some 2\<rparr>"

text \<open>
  An archive with a directory entry, a picture and three audio files whose names differ
  in case, the audio tracks taken from it, and those in the order of the host's
  comparison; and an archive without any audio file.
\<close>

definition mixed_case_entries :: "ZipEntry list" where
  "mixed_case_entries =
     [\<lparr>filename = ''music/'', dir = True, blob_url = None\<rparr>,
      \<lparr>filename = ''music/b.mp3'', dir = False, blob_url = Some ''blob:1''\<rparr>,
      \<lparr>filename = ''music/A.MP3'', dir = False, blob_url = Some ''blob:2''\<rparr>,
      \<lparr>filename = ''music/cover.png'', dir = False, blob_url = Some ''blob:3''\<rparr>,
      \<lparr>filename = ''music/a.mp3'', dir = False, blob_url = Some ''blob:4''\<rparr>]"

definition mixed_case_file :: File where
  "mixed_case_file = \<lparr>file_name = ''mix.zip'', zip_files = Some mixed_case_entries\<rparr>"

definition mixed_case_audio :: "Track list" where
  "mixed_case_audio =
     [\<lparr>track_name = ''b.mp3'', track_url = ''blob:1''\<rparr>,
      \<lparr>track_name = ''A.MP3'', track_url = ''blob:2''\<rparr>,
      \<lparr>track_name = ''a.mp3'', track_url = ''blob:4''\<rparr>]"


definition text_only_entries :: "ZipEntry list" where
  "text_only_entries = [\<lparr>filename = ''readme.txt'', dir = False, blob_url = Some ''blob:9''\<rparr>]"

definition text_only_file :: File where
  "text_only_file = \<lparr>file_name = ''notes.zip'', zip_files = Some text_only_entries\<rparr>"

section \<open>Automatic advance and the queue\<close>

lemma playNext_empty_queue:
  "queue s = [] \<Longrightarrow> playNext s = playNext_part_000 s"
  by (simp add: playNext_def playNext_part_000_def)

lemma playNext_nonempty_queue:
  "queue s = e # es \<Longrightarrow>
   playNext s = s\<lparr>queue := es, currentPlaylistIndex := Some (playlistIndex e),
                  currentTrackIndex := Some (trackIndex e), isPlaying := True\<rparr>"
  by (simp add: playNext_def)

text \<open>
  C1. Whenever the queue is non-empty, the end-of-track transition selects the former
  head of the queue (its playlist and track index) whatever was selected before, the
  remaining queue is the old one without that head, playback is on, and the library is
  untouched; the result does not depend on the selection before the event, so the
  wrap-around rule plays no part.
\<close>

theorem handleEnded_takes_queue_head:
  assumes "queue s \<noteq> []"
  shows "currentPlaylistIndex (handleEnded s) = Some (playlistIndex (hd (queue s)))
       \<and> currentTrackIndex (handleEnded s) = Some (trackIndex (hd (queue s)))
       \<and> queue s = hd (queue s) # queue (handleEnded s)
       \<and> isPlaying (handleEnded s)
       \<and> playlists (handleEnded s) = playlists s
       \<and> handleEnded (s\<lparr>currentPlaylistIndex := p, currentTrackIndex := t\<rparr>) = handleEnded s"
proof -
  from assms obtain e es where q: "queue s = e # es"
    by (cases "queue s") auto
  then show ?thesis
    by (simp add: handleEnded_def playNext_def)
qed

text \<open>Track 2 waits in the queue while track 0 plays: the end of the track selects track 2.\<close>

theorem handleEnded_takes_queue_head_witness:
  "queue one_queued \<noteq> []
   \<and> currentPlaylistIndex (handleEnded one_queued) = Some 0
   \<and> currentTrackIndex (handleEnded one_queued) = Some 2
   \<and> queue (handleEnded one_queued) = []"
proof -
  have q: "queue one_queued = [\<lparr>playlistIndex = 0, trackIndex = 2\<rparr>]"
    by (simp add: one_queued_def)
  then have n: "queue one_queued \<noteq> []"
    by simp
  from handleEnded_takes_queue_head [OF n] show ?thesis
    by (simp add: q)
qed

section \<open>The skip-forward button\<close>

text \<open>
  The skip-forward button calls the same \<open>playNext\<close>. With track 2 waiting in the queue,
  a click on it empties the queue and selects track 2, where the wrap-around rule alone
  would have gone from track 0 to track 1.
\<close>

theorem skipForward_consumes_queue:
  "queue (skipForward_onClick one_queued) \<noteq> queue one_queued
   \<and> currentTrackIndex (skipForward_onClick one_queued)
       \<noteq> Some (nextIndex 3 (currentTrackIndex one_queued))"
  by (simp add: skipForward_onClick_def playNext_def one_queued_def one_playlist_def nextIndex_def)

text \<open>
  C2, as the code has it. The manual skip-forward is the very transition of the
  automatic end-of-track advance. With a non-empty queue it removes the head of the queue
  and selects it. Only with an empty queue is the queue left as it was, the playlist
  index kept, and the new track index computed from the current playlist alone by the
  wrap-around rule.
\<close>

theorem skipForward_is_playNext:
  "skipForward_onClick s = handleEnded s
   \<and> (queue s \<noteq> [] \<longrightarrow>
        queue s = hd (queue s) # queue (skipForward_onClick s)
        \<and> currentPlaylistIndex (skipForward_onClick s) = Some (playlistIndex (hd (queue s)))
        \<and> currentTrackIndex (skipForward_onClick s) = Some (trackIndex (hd (queue s))))
   \<and> (queue s = [] \<longrightarrow>
        queue (skipForward_onClick s) = queue s
        \<and> currentPlaylistIndex (skipForward_onClick s) = currentPlaylistIndex s
        \<and> (\<forall>cp. currentPlaylist s = Some cp \<longrightarrow>
              currentTrackIndex (skipForward_onClick s)
                = Some (nextIndex (int (length (tracks cp))) (currentTrackIndex s))))"
proof (cases "queue s")
  case Nil
  then show ?thesis
    by (simp add: skipForward_onClick_def handleEnded_def playNext_empty_queue
        playNext_part_000_def split: option.splits)
next
  case (Cons e es)
  then show ?thesis
    by (simp add: skipForward_onClick_def handleEnded_def playNext_nonempty_queue)
qed

text \<open>Both cases on the example data: track 2 queued, and nothing queued.\<close>

theorem skipForward_is_playNext_witness:
  "queue one_queued \<noteq> [] \<and> queue (skipForward_onClick one_queued) = []
   \<and> currentTrackIndex (skipForward_onClick one_queued) = Some 2
   \<and> queue one_playlist = [] \<and> currentTrackIndex (skipForward_onClick one_playlist) = Some 1"
proof -
  have q1: "queue one_queued = [\<lparr>playlistIndex = 0, trackIndex = 2\<rparr>]"
    by (simp add: one_queued_def)
  have q2: "queue one_playlist = []"
    by (simp add: one_playlist_def)
  have cp: "currentPlaylist one_playlist = Some \<lparr>playlist_name = ''A.zip'', tracks = three_tracks\<rparr>"
    by (simp add: one_playlist_def currentPlaylist_def js_index_def)
  have n: "nextIndex (int (length three_tracks)) (currentTrackIndex one_playlist) = 1"
    by (simp add: one_playlist_def nextIndex_def three_tracks_def)
  from skipForward_is_playNext [of one_queued, THEN conjunct2]
    skipForward_is_playNext [of one_playlist, THEN conjunct2]
  show ?thesis
    by (simp add: q1 q2 cp n)
qed

text \<open>
  C3. With an empty queue the end-of-track transition yields exactly the state that the
  manual skip-forward yields, and exactly the state that \<open>playNext\<close> of the revision
  without a queue yields: selection, playing flag, queue and library alike. The queue
  stays empty, and when the selected playlist resolves the result is the old state with
  the track index moved by the wrap-around rule and playback on.
\<close>

theorem handleEnded_empty_queue_is_manual_next:
  assumes "queue s = []"
  shows "handleEnded s = skipForward_onClick s
       \<and> handleEnded s = playNext_part_000 s
       \<and> queue (handleEnded s) = []
       \<and> (\<forall>cp. currentPlaylist s = Some cp \<longrightarrow>
            handleEnded s =
              s\<lparr>currentTrackIndex :=
                  Some (nextIndex (int (length (tracks cp))) (currentTrackIndex s)),
                isPlaying := True\<rparr>)"
  using assms
  by (simp add: handleEnded_def skipForward_onClick_def playNext_empty_queue
      playNext_part_000_def split: option.splits)

text \<open>One playlist of three tracks at track 0: both go to track 1.\<close>

theorem handleEnded_empty_queue_is_manual_next_witness:
  "queue one_playlist = []
   \<and> handleEnded one_playlist = playNext_part_000 one_playlist
   \<and> handleEnded one_playlist = one_playlist\<lparr>currentTrackIndex := Some 1\<rparr>"
proof -
  have q: "queue one_playlist = []"
    by (simp add: one_playlist_def)
  have cp: "currentPlaylist one_playlist = Some \<lparr>playlist_name = ''A.zip'', tracks = three_tracks\<rparr>"
    by (simp add: one_playlist_def currentPlaylist_def js_index_def)
  have r: "one_playlist\<lparr>currentTrackIndex :=
              Some (nextIndex (int (length (tracks \<lparr>playlist_name = ''A.zip'', tracks = three_tracks\<rparr>)))
                     (currentTrackIndex one_playlist)),
            isPlaying := True\<rparr> = one_playlist\<lparr>currentTrackIndex := Some 1\<rparr>"
    by (simp add: one_playlist_def nextIndex_def three_tracks_def)
  from handleEnded_empty_queue_is_manual_next [OF q] cp r q show ?thesis
    by metis
qed

section \<open>Adding to the queue, then taking from it\<close>

text \<open>
  For a pair that resolves to a track, \<open>addToQueue\<close> appends the entry and shows the
  toast; for a pair that does not, the entry is appended and the read for the toast
  throws.
\<close>

lemma addToQueue_resolved:
  assumes "js_index (playlists s) p = Some pl" and "js_index (tracks pl) t = Some tr"
  shows "addToQueue s p t =
           (s\<lparr>queue := queue s @ [\<lparr>playlistIndex = p, trackIndex = t\<rparr>]\<rparr>,
            Toast ([CHR 0x27] @ track_name tr @ [CHR 0x27] @ '' added to queue''))"
  using assms by (simp add: addToQueue_def)

lemma addToQueue_unresolved:
  assumes "js_index (playlists s) p = None
         \<or> (\<exists>pl. js_index (playlists s) p = Some pl \<and> js_index (tracks pl) t = None)"
  shows "snd (addToQueue s p t) = TypeError"
  using assms by (auto simp: addToQueue_def)

text \<open>
  \<open>addToQueue\<close> appends at the end and \<open>playNext\<close> takes from the front. With track 2
  already waiting, adding the valid entry (0, 1) succeeds with its toast, and taking the
  front then selects track 2, not the entry just added.
\<close>

theorem enqueue_then_playNext_selects_old_head:
  "snd (addToQueue one_queued 0 1) = Toast ([CHR 0x27] @ ''t2.mp3'' @ [CHR 0x27] @ '' added to queue'')
   \<and> currentTrackIndex (playNext (fst (addToQueue one_queued 0 1))) \<noteq> Some 1"
  by (simp add: addToQueue_def playNext_def one_queued_def one_playlist_def js_index_def
      three_tracks_def Let_def)

text \<open>
  C4, as the code has it. Let \<open>(p, t)\<close> be a valid pair: playlist \<open>p\<close> exists and has a
  track \<open>t\<close>. Adding it succeeds: the queue becomes the old queue with the entry at its
  end, and the toast names the track. Taking the front of the queue afterwards leaves a
  queue as long as the one before the addition. What is taken, and is now selected, is
  the front of the queue with the new entry at its end: the entry \<open>(p, t)\<close> itself when
  the queue was empty before, and otherwise the entry that was at the front before,
  while \<open>(p, t)\<close> stays last in the queue.
\<close>

theorem enqueue_then_playNext:
  assumes "js_index (playlists s) p = Some pl" and "js_index (tracks pl) t = Some tr"
  shows "addToQueue s p t =
           (s\<lparr>queue := queue s @ [\<lparr>playlistIndex = p, trackIndex = t\<rparr>]\<rparr>,
            Toast ([CHR 0x27] @ track_name tr @ [CHR 0x27] @ '' added to queue''))
       \<and> length (queue (playNext (fst (addToQueue s p t)))) = length (queue s)
       \<and> queue (playNext (fst (addToQueue s p t)))
           = tl (queue s @ [\<lparr>playlistIndex = p, trackIndex = t\<rparr>])
       \<and> currentPlaylistIndex (playNext (fst (addToQueue s p t)))
           = Some (playlistIndex (hd (queue s @ [\<lparr>playlistIndex = p, trackIndex = t\<rparr>])))
       \<and> currentTrackIndex (playNext (fst (addToQueue s p t)))
           = Some (trackIndex (hd (queue s @ [\<lparr>playlistIndex = p, trackIndex = t\<rparr>])))
       \<and> (queue s = [] \<longrightarrow>
            currentPlaylistIndex (playNext (fst (addToQueue s p t))) = Some p
            \<and> currentTrackIndex (playNext (fst (addToQueue s p t))) = Some t
            \<and> queue (playNext (fst (addToQueue s p t))) = [])
       \<and> (queue s \<noteq> [] \<longrightarrow>
            currentPlaylistIndex (playNext (fst (addToQueue s p t)))
              = Some (playlistIndex (hd (queue s)))
            \<and> currentTrackIndex (playNext (fst (addToQueue s p t)))
              = Some (trackIndex (hd (queue s)))
            \<and> queue (playNext (fst (addToQueue s p t)))
              = tl (queue s) @ [\<lparr>playlistIndex = p, trackIndex = t\<rparr>])"
proof -
  note a = addToQueue_resolved [OF assms]
  have q: "queue (fst (addToQueue s p t)) = queue s @ [\<lparr>playlistIndex = p, trackIndex = t\<rparr>]"
    by (simp add: a)
  obtain e es where c: "queue s @ [\<lparr>playlistIndex = p, trackIndex = t\<rparr>] = e # es"
    by (cases "queue s") auto
  then have l: "length es = length (queue s)"
    by (metis length_append_singleton length_Cons nat.inject)
  have sel: "length (queue (playNext (fst (addToQueue s p t)))) = length (queue s)
       \<and> queue (playNext (fst (addToQueue s p t)))
           = tl (queue s @ [\<lparr>playlistIndex = p, trackIndex = t\<rparr>])
       \<and> currentPlaylistIndex (playNext (fst (addToQueue s p t)))
           = Some (playlistIndex (hd (queue s @ [\<lparr>playlistIndex = p, trackIndex = t\<rparr>])))
       \<and> currentTrackIndex (playNext (fst (addToQueue s p t)))
           = Some (trackIndex (hd (queue s @ [\<lparr>playlistIndex = p, trackIndex = t\<rparr>])))"
    using q c l by (simp add: playNext_nonempty_queue)
  have emp: "queue s = [] \<longrightarrow>
            currentPlaylistIndex (playNext (fst (addToQueue s p t))) = Some p
            \<and> currentTrackIndex (playNext (fst (addToQueue s p t))) = Some t
            \<and> queue (playNext (fst (addToQueue s p t))) = []"
    using sel by simp
  have non: "queue s \<noteq> [] \<longrightarrow>
            currentPlaylistIndex (playNext (fst (addToQueue s p t)))
              = Some (playlistIndex (hd (queue s)))
            \<and> currentTrackIndex (playNext (fst (addToQueue s p t)))
              = Some (trackIndex (hd (queue s)))
            \<and> queue (playNext (fst (addToQueue s p t)))
              = tl (queue s) @ [\<lparr>playlistIndex = p, trackIndex = t\<rparr>]"
    using sel by simp
  from a sel emp non show ?thesis
    by blast
qed

text \<open>
  Adding the valid pair (0, 1) to an empty queue and taking the front selects (0, 1);
  adding it behind the waiting track 2 and taking the front selects track 2 and leaves
  (0, 1) in the queue.
\<close>

theorem enqueue_then_playNext_witness:
  "js_index (playlists one_playlist) 0 = Some \<lparr>playlist_name = ''A.zip'', tracks = three_tracks\<rparr>
   \<and> js_index three_tracks 1 = Some \<lparr>track_name = ''t2.mp3'', track_url = ''blob:2''\<rparr>
   \<and> queue one_playlist = []
   \<and> currentPlaylistIndex (playNext (fst (addToQueue one_playlist 0 1))) = Some 0
   \<and> currentTrackIndex (playNext (fst (addToQueue one_playlist 0 1))) = Some 1
   \<and> queue (playNext (fst (addToQueue one_playlist 0 1))) = []
   \<and> queue one_queued = [\<lparr>playlistIndex = 0, trackIndex = 2\<rparr>]
   \<and> snd (addToQueue one_queued 0 1)
        = Toast ([CHR 0x27] @ ''t2.mp3'' @ [CHR 0x27] @ '' added to queue'')
   \<and> currentTrackIndex (playNext (fst (addToQueue one_queued 0 1))) = Some 2
   \<and> queue (playNext (fst (addToQueue one_queued 0 1))) = [\<lparr>playlistIndex = 0, trackIndex = 1\<rparr>]"
proof -
  have p1: "js_index (playlists one_playlist) 0
              = Some \<lparr>playlist_name = ''A.zip'', tracks = three_tracks\<rparr>"
    by (simp add: one_playlist_def js_index_def)
  have p2: "js_index (playlists one_queued) 0
              = Some \<lparr>playlist_name = ''A.zip'', tracks = three_tracks\<rparr>"
    by (simp add: one_queued_def one_playlist_def js_index_def)
  have t1: "js_index (tracks \<lparr>playlist_name = ''A.zip'', tracks = three_tracks\<rparr>) 1
              = Some \<lparr>track_name = ''t2.mp3'', track_url = ''blob:2''\<rparr>"
    by (simp add: three_tracks_def js_index_def)
  have q1: "queue one_playlist = []"
    by (simp add: one_playlist_def)
  have q2: "queue one_queued = [\<lparr>playlistIndex = 0, trackIndex = 2\<rparr>]"
    by (simp add: one_queued_def)
  note w1 = enqueue_then_playNext [OF p1 t1, THEN conjunct2]
  note w2 = enqueue_then_playNext [OF p2 t1]
  have s2: "snd (addToQueue one_queued 0 1)
        = Toast ([CHR 0x27] @ ''t2.mp3'' @ [CHR 0x27] @ '' added to queue'')"
    using w2 [THEN conjunct1] by simp
  from w1 w2 [THEN conjunct2] p1 t1 q1 q2 s2 show ?thesis
    by simp
qed

section \<open>Choosing a playlist\<close>

text \<open>
  A library of one playlist has no playlist 5, yet \<open>handlePlaylistChange\<close> makes 5 the
  current playlist index.
\<close>

theorem handlePlaylistChange_accepts_out_of_range:
  "js_index (playlists one_playlist) 5 = None
   \<and> currentPlaylistIndex (handlePlaylistChange one_playlist 5)
       \<noteq> currentPlaylistIndex one_playlist"
  by (simp add: handlePlaylistChange_def one_playlist_def js_index_def)

text \<open>
  C5, as the code has it. For a playlist index that is out of range,
  \<open>handlePlaylistChange\<close> leaves the library and the queue unchanged, and it has no
  error to report. When the index is the current playlist index nothing changes. Any
  other index is taken over unchecked: it becomes the current playlist index, the track
  index becomes 0 and playback is switched on, after which neither a current playlist nor
  a current track resolves.
\<close>

theorem handlePlaylistChange_unchecked:
  assumes "js_index (playlists s) index = None"
  shows "playlists (handlePlaylistChange s index) = playlists s
       \<and> queue (handlePlaylistChange s index) = queue s
       \<and> (Some index = currentPlaylistIndex s \<longrightarrow> handlePlaylistChange s index = s)
       \<and> (Some index \<noteq> currentPlaylistIndex s \<longrightarrow>
            currentPlaylistIndex (handlePlaylistChange s index) = Some index
            \<and> currentTrackIndex (handlePlaylistChange s index) = Some 0
            \<and> isPlaying (handlePlaylistChange s index)
            \<and> currentPlaylist (handlePlaylistChange s index) = None
            \<and> currentTrack (handlePlaylistChange s index) = None)"
  using assms
  by (simp add: handlePlaylistChange_def currentPlaylist_def currentTrack_def)

text \<open>Index 5 on a library of one playlist.\<close>

theorem handlePlaylistChange_unchecked_witness:
  "js_index (playlists one_playlist) 5 = None
   \<and> Some 5 \<noteq> currentPlaylistIndex one_playlist
   \<and> currentPlaylistIndex (handlePlaylistChange one_playlist 5) = Some 5
   \<and> currentTrack (handlePlaylistChange one_playlist 5) = None"
  using handlePlaylistChange_unchecked [of one_playlist 5]
  by (simp add: one_playlist_def js_index_def)

section \<open>Wrap-around\<close>

text \<open>
  At the last of three tracks, with track 1 waiting in the queue, the skip-forward
  button does not go to track 0: the queue comes first.
\<close>

theorem skipForward_at_last_track_with_queue:
  "currentPlaylist last_track_queued = Some \<lparr>playlist_name = ''A.zip'', tracks = three_tracks\<rparr>
   \<and> int (length three_tracks) = 3
   \<and> currentTrackIndex last_track_queued = Some 2
   \<and> currentTrackIndex (skipForward_onClick last_track_queued) \<noteq> Some 0"
  by (simp add: last_track_queued_def one_playlist_def currentPlaylist_def js_index_def
      skipForward_onClick_def playNext_def three_tracks_def)

text \<open>From an index inside a playlist, both updaters stay inside it.\<close>

lemma wrap_in_range:
  assumes "0 \<le> i" and "i < n"
  shows "0 \<le> nextIndex n (Some i) \<and> nextIndex n (Some i) < n
       \<and> 0 \<le> previousIndex n (Some i) \<and> previousIndex n (Some i) < n"
  using assms by (simp add: nextIndex_def previousIndex_def)

text \<open>
  C6, as the code has it. Let a playlist of \<open>n\<close> tracks be selected at track index \<open>i\<close>.
  With an empty queue, skip-forward yields index 0 when \<open>i = n - 1\<close> and \<open>i + 1\<close>
  otherwise. Skip-back, whatever the queue holds, yields \<open>n - 1\<close> when \<open>i = 0\<close> and
  \<open>i - 1\<close> otherwise. Neither changes the playlist index, and from an index within the
  playlist both results are within it.
\<close>

theorem wrap_around:
  assumes "currentPlaylist s = Some cp" and "n = int (length (tracks cp))"
    and "currentTrackIndex s = Some i"
  shows "(queue s = [] \<longrightarrow>
            currentTrackIndex (skipForward_onClick s) = Some (if i = n - 1 then 0 else i + 1)
            \<and> currentPlaylistIndex (skipForward_onClick s) = currentPlaylistIndex s)
       \<and> currentTrackIndex (skipBack_onClick s) = Some (if i = 0 then n - 1 else i - 1)
       \<and> currentPlaylistIndex (skipBack_onClick s) = currentPlaylistIndex s
       \<and> (0 \<le> i \<and> i < n \<longrightarrow>
            0 \<le> nextIndex n (Some i) \<and> nextIndex n (Some i) < n
            \<and> 0 \<le> previousIndex n (Some i) \<and> previousIndex n (Some i) < n)"
proof -
  have fwd: "queue s = [] \<longrightarrow>
            currentTrackIndex (skipForward_onClick s) = Some (if i = n - 1 then 0 else i + 1)
            \<and> currentPlaylistIndex (skipForward_onClick s) = currentPlaylistIndex s"
    using assms
    by (simp add: skipForward_onClick_def playNext_empty_queue playNext_part_000_def nextIndex_def)
  have bwd: "currentTrackIndex (skipBack_onClick s) = Some (if i = 0 then n - 1 else i - 1)
       \<and> currentPlaylistIndex (skipBack_onClick s) = currentPlaylistIndex s"
    using assms
    by (simp add: skipBack_onClick_def playPrevious_def previousIndex_def)
  from fwd bwd wrap_in_range [of i n] show ?thesis
    by blast
qed

text \<open>Three tracks, the last one selected: forward to 0, back to 1.\<close>

theorem wrap_around_witness:
  "currentPlaylist (one_playlist\<lparr>currentTrackIndex := Some 2\<rparr>)
      = Some \<lparr>playlist_name = ''A.zip'', tracks = three_tracks\<rparr>
   \<and> queue (one_playlist\<lparr>currentTrackIndex := Some 2\<rparr>) = []
   \<and> currentTrackIndex (skipForward_onClick (one_playlist\<lparr>currentTrackIndex := Some 2\<rparr>)) = Some 0
   \<and> currentTrackIndex (skipBack_onClick (one_playlist\<lparr>currentTrackIndex := Some 2\<rparr>)) = Some 1"
proof -
  have cp: "currentPlaylist (one_playlist\<lparr>currentTrackIndex := Some 2\<rparr>)
      = Some \<lparr>playlist_name = ''A.zip'', tracks = three_tracks\<rparr>"
    by (simp add: one_playlist_def currentPlaylist_def js_index_def)
  have n: "(3::int) = int (length (tracks \<lparr>playlist_name = ''A.zip'', tracks = three_tracks\<rparr>))"
    by (simp add: three_tracks_def)
  have t: "currentTrackIndex (one_playlist\<lparr>currentTrackIndex := Some 2\<rparr>) = Some 2"
    by simp
  have q: "queue (one_playlist\<lparr>currentTrackIndex := Some 2\<rparr>) = []"
    by (simp add: one_playlist_def)
  from wrap_around [OF cp n t] cp q show ?thesis
    by simp
qed

section \<open>Sorting the tracks of an upload\<close>

text \<open>The sort rearranges its input.\<close>

lemma insert_by_mset: "mset (insert_by c x ys) = add_mset x (mset ys)"
  by (induction ys) auto

lemma array_sort_mset: "mset (array_sort c xs) = mset xs"
  by (induction xs) (auto simp: array_sort_def insert_by_mset)










lemma primary_key_ignores_case:
  "toLowerCase a = toLowerCase b \<Longrightarrow> primary_key a = primary_key b"
proof -
  assume "toLowerCase a = toLowerCase b"
  then have "map (place_in collation_order) (toLowerCase a)
           = map (place_in collation_order) (toLowerCase b)"
    by simp
  then show ?thesis
    by (simp add: primary_key_def toLowerCase_def comp_def)
qed


text \<open>Without an entry that passes the audio test, the collected array is empty.\<close>

lemma collectAudioFiles_no_audio:
  "filter isAudio entries = [] \<Longrightarrow> collectAudioFiles entries = Some []"
  by (induction entries) (auto split: if_splits)

text \<open>The example archive evaluated.\<close>

lemma mixed_case_collect: "collectAudioFiles mixed_case_entries = Some mixed_case_audio"
  by code_simp







section \<open>An upload without audio\<close>

text \<open>
  An archive that holds only a text file: the handler emits no notice of any kind.
\<close>

theorem upload_without_audio_reports_nothing:
  "filter isAudio text_only_entries = []
   \<and> snd (handleFileUpload localeCompare_default initial (Some text_only_file)) = []"
  by code_simp

text \<open>
  C8, as the code has it. For every upload in which no entry is an audio file, no
  playlist is created and the library, the queue, the selection and the playing flag are
  exactly as before (the loading flag is cleared); nothing is reported, neither an error
  nor any other notice: the upload passes silently.
\<close>

theorem upload_without_audio_is_silent:
  assumes "zip_files f = Some entries" and "filter isAudio entries = []"
  shows "handleFileUpload localeCompare s (Some f) = (s\<lparr>isLoading := False\<rparr>, [])"
  using assms by (simp add: handleFileUpload_def collectAudioFiles_no_audio)

text \<open>The text-only archive on the initial state returns the initial state.\<close>

theorem upload_without_audio_is_silent_witness:
  "zip_files text_only_file = Some text_only_entries
   \<and> filter isAudio text_only_entries = []
   \<and> handleFileUpload localeCompare_default initial (Some text_only_file) = (initial, [])"
proof -
  have z: "zip_files text_only_file = Some text_only_entries"
    by (simp add: text_only_file_def)
  have a: "filter isAudio text_only_entries = []"
    by code_simp
  have i: "initial\<lparr>isLoading := False\<rparr> = initial"
    by (simp add: initial_def)
  from upload_without_audio_is_silent [OF z a, of localeCompare_default initial] z a i
  show ?thesis
    by simp
qed

section \<open>The selection invariant\<close>

text \<open>
  Every handler keeps a consistent selection consistent; \<open>selectTrack\<close>, which writes the
  track index only, needs a playlist to be selected.
\<close>

lemma playNext_consistent:
  "selection_consistent s \<Longrightarrow> selection_consistent (playNext s)"
  by (auto simp: selection_consistent_def playNext_def currentPlaylist_def Let_def
      split: option.splits)

lemma playPrevious_consistent:
  "selection_consistent s \<Longrightarrow> selection_consistent (playPrevious s)"
  by (auto simp: selection_consistent_def playPrevious_def currentPlaylist_def
      split: option.splits)

lemma togglePlayPause_consistent:
  "selection_consistent s \<Longrightarrow> selection_consistent (togglePlayPause s)"
  by (simp add: selection_consistent_def togglePlayPause_def)

lemma handlePlaylistChange_consistent:
  "selection_consistent s \<Longrightarrow> selection_consistent (handlePlaylistChange s index)"
  by (simp add: selection_consistent_def handlePlaylistChange_def)

lemma selectTrack_consistent:
  "currentPlaylistIndex s \<noteq> None \<Longrightarrow> selection_consistent (selectTrack s index)"
  by (simp add: selection_consistent_def selectTrack_def)

lemma addToQueue_consistent:
  "selection_consistent s \<Longrightarrow> selection_consistent (fst (addToQueue s p t))"
  by (simp add: selection_consistent_def addToQueue_def Let_def split: option.splits)

lemma removeFromQueue_consistent:
  "selection_consistent s \<Longrightarrow> selection_consistent (removeFromQueue s i)"
  by (simp add: selection_consistent_def removeFromQueue_def)

lemma handleFileUpload_consistent:
  "selection_consistent s \<Longrightarrow> selection_consistent (fst (handleFileUpload lc s file))"
  by (simp add: selection_consistent_def handleFileUpload_def Let_def split: option.splits)

text \<open>
  Every event of the page leads from a consistent selection to a consistent one: the
  track rows, which call \<open>selectTrack\<close>, are there only while a playlist is selected.
\<close>

lemma fire_consistent:
  "selection_consistent s \<and> fire lc e s = Some s' \<longrightarrow> selection_consistent s'"
proof -
  have "selection_consistent s'"
    if inv: "selection_consistent s" and f: "fire lc e s = Some s'"
  proof (cases e)
    case (FileChosen chosen)
    with inv f show ?thesis
      by (auto simp: handleFileUpload_consistent split: if_splits)
  next
    case (PlaylistChosen index)
    with inv f show ?thesis
      by (auto simp: handlePlaylistChange_consistent split: if_splits)
  next
    case SkipBackClicked
    with inv f show ?thesis
      by (auto simp: skipBack_onClick_def playPrevious_consistent split: if_splits)
  next
    case PlayPauseClicked
    with inv f show ?thesis
      by (auto simp: togglePlayPause_consistent split: if_splits)
  next
    case SkipForwardClicked
    with inv f show ?thesis
      by (auto simp: skipForward_onClick_def playNext_consistent split: if_splits)
  next
    case (TrackClicked index)
    with f obtain cp where "currentPlaylist s = Some cp" and "s' = selectTrack s index"
      by (auto split: option.splits if_splits)
    then show ?thesis
      by (auto simp: currentPlaylist_def selectTrack_consistent split: option.splits)
  next
    case (AddToQueueClicked index)
    with inv f show ?thesis
      by (auto simp: addToQueue_consistent split: option.splits if_splits)
  next
    case (RemoveFromQueueClicked index)
    with inv f show ?thesis
      by (auto simp: removeFromQueue_consistent split: if_splits)
  next
    case Ended
    with inv f show ?thesis
      by (auto simp: handleEnded_def playNext_consistent)
  qed
  then show ?thesis
    by blast
qed

text \<open>
  \<open>selectTrack\<close> writes the track index and nothing else, and it does not look whether a
  playlist is selected. Called on the initial state it leaves the playlist index absent
  and makes the track index 3.
\<close>

theorem selectTrack_without_playlist:
  "selection_consistent initial
   \<and> currentPlaylistIndex (selectTrack initial 3) = None
   \<and> currentTrackIndex (selectTrack initial 3) = Some 3
   \<and> \<not> selection_consistent (selectTrack initial 3)"
  by (simp add: selection_consistent_def selectTrack_def initial_def)

text \<open>
  C9, as the code has it. The playlist index and the track index are both absent in the
  initial state. From a state where they are both absent or both present, choosing a
  playlist, play/pause, skip-forward, skip-back, the end of a track, adding to the queue,
  removing from it and an upload each lead to another such state, for every argument.
  \<open>selectTrack\<close> leads to such a state exactly when a playlist is selected; on a state
  with nothing selected it sets the track index alone. The page offers \<open>selectTrack\<close>
  only while a playlist is selected, so every event of the page keeps the condition.
\<close>

theorem selection_consistent_preserved:
  "selection_consistent initial
   \<and> (selection_consistent s \<longrightarrow>
        selection_consistent (handlePlaylistChange s index)
        \<and> selection_consistent (togglePlayPause s)
        \<and> selection_consistent (skipForward_onClick s)
        \<and> selection_consistent (skipBack_onClick s)
        \<and> selection_consistent (handleEnded s)
        \<and> selection_consistent (fst (addToQueue s p t))
        \<and> selection_consistent (removeFromQueue s queueIndex)
        \<and> selection_consistent (fst (handleFileUpload localeCompare s chosen)))
   \<and> (selection_consistent (selectTrack s index) \<longleftrightarrow> currentPlaylistIndex s \<noteq> None)
   \<and> (selection_consistent s \<and> fire localeCompare e s = Some s' \<longrightarrow> selection_consistent s')"
proof -
  have i: "selection_consistent initial"
    by (simp add: selection_consistent_def initial_def)
  have h: "selection_consistent s \<longrightarrow>
        selection_consistent (handlePlaylistChange s index)
        \<and> selection_consistent (togglePlayPause s)
        \<and> selection_consistent (skipForward_onClick s)
        \<and> selection_consistent (skipBack_onClick s)
        \<and> selection_consistent (handleEnded s)
        \<and> selection_consistent (fst (addToQueue s p t))
        \<and> selection_consistent (removeFromQueue s queueIndex)
        \<and> selection_consistent (fst (handleFileUpload localeCompare s chosen))"
    by (simp add: handlePlaylistChange_consistent togglePlayPause_consistent
        skipForward_onClick_def skipBack_onClick_def handleEnded_def playNext_consistent
        playPrevious_consistent addToQueue_consistent removeFromQueue_consistent
        handleFileUpload_consistent)
  have st: "selection_consistent (selectTrack s index) \<longleftrightarrow> currentPlaylistIndex s \<noteq> None"
    by (simp add: selection_consistent_def selectTrack_def)
  from i h st fire_consistent [of s localeCompare e s'] show ?thesis
    by blast
qed

text \<open>
  On the example playlist: the handlers keep the selection consistent, \<open>selectTrack\<close>
  does so because playlist 0 is selected, and so does a click on the third track row.
\<close>

theorem selection_consistent_preserved_witness:
  "selection_consistent one_playlist
   \<and> currentPlaylistIndex one_playlist \<noteq> None
   \<and> selection_consistent (handleEnded one_playlist)
   \<and> selection_consistent (selectTrack one_playlist 2)
   \<and> fire localeCompare_default (TrackClicked 2) one_playlist
       = Some (one_playlist\<lparr>currentTrackIndex := Some 2\<rparr>)
   \<and> selection_consistent (one_playlist\<lparr>currentTrackIndex := Some 2\<rparr>)"
proof -
  have i: "selection_consistent one_playlist"
    by (simp add: selection_consistent_def one_playlist_def)
  have c: "currentPlaylistIndex one_playlist \<noteq> None"
    by (simp add: one_playlist_def)
  have f: "fire localeCompare_default (TrackClicked 2) one_playlist
       = Some (one_playlist\<lparr>currentTrackIndex := Some 2\<rparr>)"
    by (simp add: one_playlist_def currentPlaylist_def js_index_def three_tracks_def
        selectTrack_def)
  from selection_consistent_preserved
    [where s = one_playlist and index = 2 and localeCompare = localeCompare_default
       and e = "TrackClicked 2" and s' = "one_playlist\<lparr>currentTrackIndex := Some 2\<rparr>"]
    i c f
  show ?thesis
    by blast
qed

section \<open>The first upload\<close>

text \<open>
  C10. With an empty library and nothing selected, an upload that yields at least one
  audio track selects playlist 0 and track 0 and leaves the playing flag as it was: the
  upload does not start playback. The queue is untouched, nothing is reported, and the
  selection resolves to the new playlist and its first track in sorted order.
\<close>

theorem first_upload_selects_first_track:
  assumes "playlists s = []" and "currentPlaylistIndex s = None"
    and "zip_files f = Some entries" and "collectAudioFiles entries = Some audioFiles"
    and "audioFiles \<noteq> []"
  shows "currentPlaylistIndex (fst (handleFileUpload localeCompare s (Some f))) = Some 0
       \<and> currentTrackIndex (fst (handleFileUpload localeCompare s (Some f))) = Some 0
       \<and> isPlaying (fst (handleFileUpload localeCompare s (Some f))) = isPlaying s
       \<and> queue (fst (handleFileUpload localeCompare s (Some f))) = queue s
       \<and> snd (handleFileUpload localeCompare s (Some f)) = []
       \<and> currentPlaylist (fst (handleFileUpload localeCompare s (Some f)))
           = Some \<lparr>playlist_name = file_name f,
                   tracks = array_sort (byName localeCompare) audioFiles\<rparr>
       \<and> currentTrack (fst (handleFileUpload localeCompare s (Some f)))
           = Some (hd (array_sort (byName localeCompare) audioFiles))"
proof -
  have ne: "array_sort (byName localeCompare) audioFiles \<noteq> []"
    using assms(5) array_sort_mset [of "byName localeCompare" audioFiles]
    by (metis mset_zero_iff)
  then have "0 < length (array_sort (byName localeCompare) audioFiles)"
    by simp
  with assms ne show ?thesis
    by (simp add: handleFileUpload_def Let_def currentPlaylist_def currentTrack_def
        js_index_def hd_conv_nth)
qed

text \<open>The example archive uploaded in the initial state, which is not playing.\<close>

theorem first_upload_selects_first_track_witness:
  "playlists initial = [] \<and> currentPlaylistIndex initial = None \<and> \<not> isPlaying initial
   \<and> zip_files mixed_case_file = Some mixed_case_entries
   \<and> collectAudioFiles mixed_case_entries = Some mixed_case_audio
   \<and> mixed_case_audio \<noteq> []
   \<and> currentPlaylistIndex (fst (handleFileUpload localeCompare_default initial
        (Some mixed_case_file))) = Some 0
   \<and> currentTrackIndex (fst (handleFileUpload localeCompare_default initial
        (Some mixed_case_file))) = Some 0
   \<and> \<not> isPlaying (fst (handleFileUpload localeCompare_default initial (Some mixed_case_file)))"
proof -
  have p: "playlists initial = []" and c: "currentPlaylistIndex initial = None"
    and i: "\<not> isPlaying initial"
    by (simp_all add: initial_def)
  have z: "zip_files mixed_case_file = Some mixed_case_entries"
    by (simp add: mixed_case_file_def)
  have n: "mixed_case_audio \<noteq> []"
    by (simp add: mixed_case_audio_def)
  from first_upload_selects_first_track [OF p c z mixed_case_collect n, of localeCompare_default]
    p c i z mixed_case_collect n
  show ?thesis
    by simp
qed

end
